theory Spec2Isabelle
  imports Main "HOL-Library.Word"
begin

unbundle bit_operations_syntax

section \<open>Data model of \<^verbatim>\<open>bsonx/element.go\<close>\<close>

text \<open>
  Go's \<^verbatim>\<open>byte\<close>, \<^verbatim>\<open>uint32\<close>, \<^verbatim>\<open>int32\<close> and \<^verbatim>\<open>uint\<close> (64 bits) are words, so
  that \<^verbatim>\<open>+\<close> and \<^verbatim>\<open>-\<close> wrap as they do in Go. \<^verbatim>\<open>int32\<close> and \<^verbatim>\<open>uint32\<close> share the
  bit pattern; the conversions between them are the identity. \<^verbatim>\<open>int\<close> and \<^verbatim>\<open>int64\<close>
  byte counts are modelled by \<^typ>\<open>int\<close>. A slice is a list whose capacity is its
  length; the nil slice is \<open>None\<close>.
\<close>

type_synonym byte = "8 word"
type_synonym uint32 = "32 word"
type_synonym int32 = "32 word"
type_synonym uint = "64 word"

text \<open>
  The error values the file uses (\<^verbatim>\<open>bsonerr.NilElement\<close>, \<^verbatim>\<open>bsonerr.UninitializedElement\<close>,
  \<^verbatim>\<open>bsonerr.InvalidKey\<close>, \<^verbatim>\<open>newErrTooSmall()\<close>, \<^verbatim>\<open>bsonerr.InvalidWriter\<close>), any other
  error a collaborator may return (\<open>Structural\<close>), and \<^verbatim>\<open>errors.WithStack\<close>.
\<close>

datatype error =
    NilElement
  | UninitializedElement
  | InvalidKey
  | ErrTooSmall
  | InvalidWriter
  | Structural nat
  | WithStack error

text \<open>A call either panics (index out of range, nil dereference, explicit panic) or returns.\<close>

datatype 'a outcome = Panic | Ret 'a

text \<open>
  \<^verbatim>\<open>type Value struct { start, offset uint32; data []byte; d *Document }\<close> and
  \<^verbatim>\<open>type Element struct { value *Value }\<close>. The type \<open>'d\<close> is the Document type, which
  this file only uses through its methods. A \<^verbatim>\<open>*Element\<close> is an \<open>'d Element option\<close>.
\<close>

record 'd Value =
  v_start :: uint32
  v_offset :: uint32
  v_data :: "byte list option"
  v_d :: "'d option"

record 'd Element =
  el_value :: "'d Value option"

text \<open>
  The methods of other files of the package and the \<^verbatim>\<open>io.Writer\<close> interface that
  \<^verbatim>\<open>element.go\<close> calls, taken as parameters: \<^verbatim>\<open>(*Value).validate(false)\<close>,
  \<^verbatim>\<open>(*Value).Equal\<close>, \<^verbatim>\<open>(*Document).Validate\<close>, \<^verbatim>\<open>(*Document).writeByteSlice\<close>,
  \<^verbatim>\<open>(*Array).writeByteSlice\<close> (on the array built from the document) and
  \<^verbatim>\<open>io.Writer.Write\<close>. Each may panic; the writers return the destination they wrote.
\<close>

record ('d, 'w) collab =
  value_validate :: "'d Value \<Rightarrow> (uint32 \<times> error option) outcome"
  value_Equal :: "'d Value \<Rightarrow> 'd Value \<Rightarrow> bool outcome"
  doc_Validate :: "'d \<Rightarrow> (uint32 \<times> error option) outcome"
  doc_writeByteSlice :: "'d \<Rightarrow> uint \<Rightarrow> uint32 \<Rightarrow> byte list \<Rightarrow> (int \<times> error option \<times> byte list) outcome"
  arr_writeByteSlice :: "'d \<Rightarrow> uint \<Rightarrow> uint32 \<Rightarrow> byte list \<Rightarrow> (int \<times> error option \<times> byte list) outcome"
  io_Write :: "'w \<Rightarrow> byte list \<Rightarrow> (int \<times> error option \<times> 'w) outcome"

subsection \<open>Slices\<close>

text \<open>\<^verbatim>\<open>xs[i]\<close>, \<^verbatim>\<open>xs[lo:hi]\<close>, \<^verbatim>\<open>xs[lo:]\<close> and \<^verbatim>\<open>copy(b[st:], src)\<close>, with Go's bounds checks.\<close>

definition bytesOf :: "byte list option \<Rightarrow> byte list" where
  "bytesOf ob = (case ob of None \<Rightarrow> [] | Some xs \<Rightarrow> xs)"

definition index :: "byte list \<Rightarrow> nat \<Rightarrow> byte outcome" where
  "index xs i = (if i < length xs then Ret (xs ! i) else Panic)"

definition subslice :: "byte list \<Rightarrow> nat \<Rightarrow> nat \<Rightarrow> byte list outcome" where
  "subslice xs lo hi =
     (if lo \<le> hi \<and> hi \<le> length xs then Ret (take (hi - lo) (drop lo xs)) else Panic)"

definition copyAt :: "byte list \<Rightarrow> nat \<Rightarrow> byte list \<Rightarrow> (nat \<times> byte list)" where
  "copyAt b st src =
     (let n = min (length b - st) (length src)
      in (n, take st b @ take n src @ drop (st + n) b))"

definition copyInto :: "byte list \<Rightarrow> nat \<Rightarrow> byte list outcome \<Rightarrow> (nat \<times> byte list) outcome" where
  "copyInto b st src =
     (if st \<le> length b
      then (case src of Panic \<Rightarrow> Panic | Ret s \<Rightarrow> Ret (copyAt b st s))
      else Panic)"

section \<open>Validation\<close>

text \<open>
  The loop of \<^verbatim>\<open>validateKey\<close>:
  \<^verbatim>\<open>for ; pos < end && e.value.data[pos] != '\x00'; pos++ { total++ }\<close>.
\<close>

function keyScan :: "byte list \<Rightarrow> uint32 \<Rightarrow> uint32 \<Rightarrow> uint32 \<Rightarrow> (uint32 \<times> uint32) outcome" where
  "keyScan xs pos endp tot =
     (if pos < endp
      then (case index xs (unat pos) of
              Panic \<Rightarrow> Panic
            | Ret c \<Rightarrow> if c \<noteq> 0 then keyScan xs (pos + 1) endp (tot + 1) else Ret (pos, tot))
      else Ret (pos, tot))"
  by pat_completeness auto
termination
proof (relation "measure (\<lambda>(xs, pos, endp, tot). unat endp - unat pos)")
  show "wf (measure (\<lambda>(xs, pos, endp, tot). unat endp - unat pos))"
    by simp
next
  fix xs :: "byte list" and pos endp tot :: uint32 and c :: byte
  assume lt: "pos < endp"
  then have "unat (pos + 1) = Suc (unat pos)"
    by unat_arith
  with lt show "((xs, pos + 1, endp, tot + 1), xs, pos, endp, tot)
        \<in> measure (\<lambda>(xs, pos, endp, tot). unat endp - unat pos)"
    by (simp add: word_less_nat_alt)
qed

declare keyScan.simps [simp del]

text \<open>
  The local \<^verbatim>\<open>end\<close> of \<^verbatim>\<open>validateKey\<close> after the clamp
  \<^verbatim>\<open>if end > uint32(len(e.value.data)) { end = uint32(len(e.value.data)) }\<close>.
\<close>

definition clampedEnd :: "'d Value \<Rightarrow> byte list \<Rightarrow> uint32" where
  "clampedEnd v xs =
     (if v_offset v > word_of_nat (length xs) then word_of_nat (length xs) else v_offset v)"

definition validateKey :: "'d Value \<Rightarrow> (uint32 \<times> error option) outcome" where
  "validateKey v =
     (case v_data v of
        None \<Rightarrow> Ret (0, Some UninitializedElement)
      | Some xs \<Rightarrow>
          let pos0 = v_start v + 1;
              endp = clampedEnd v xs
          in (case keyScan xs pos0 endp 0 of
                Panic \<Rightarrow> Panic
              | Ret (pos, tot) \<Rightarrow>
                  if pos = endp then Ret (tot, Some InvalidKey)
                  else (case index xs (unat pos) of
                          Panic \<Rightarrow> Panic
                        | Ret c \<Rightarrow>
                            if c \<noteq> 0 then Ret (tot, Some InvalidKey)
                            else Ret (tot + 1, None))))"

text \<open>
  The spec's count for the key: the bytes scanned from \<open>pos\<close> towards \<open>endp\<close> before
  the first null byte.
\<close>

definition scanned :: "byte list \<Rightarrow> uint32 \<Rightarrow> uint32 \<Rightarrow> nat" where
  "scanned xs pos endp =
     length (takeWhile (\<lambda>c. c \<noteq> 0) (take (unat endp - unat pos) (drop (unat pos) xs)))"

definition Validate :: "('d, 'w) collab \<Rightarrow> 'd Element option \<Rightarrow> (uint32 \<times> error option) outcome" where
  "Validate C e =
     (case e of
        None \<Rightarrow> Ret (0, Some NilElement)
      | Some el \<Rightarrow>
          (case el_value el of
             None \<Rightarrow> Ret (0, Some UninitializedElement)
           | Some v \<Rightarrow>
               (case validateKey v of
                  Panic \<Rightarrow> Panic
                | Ret (n, err) \<Rightarrow>
                    let tot = 1 + n
                    in (case err of
                          Some x \<Rightarrow> Ret (tot, Some x)
                        | None \<Rightarrow>
                            (case value_validate C v of
                               Panic \<Rightarrow> Panic
                             | Ret (m, err2) \<Rightarrow> Ret (tot + m, err2))))))"

section \<open>Key access and equality\<close>

definition KeyOK :: "'d Element option \<Rightarrow> (byte list \<times> bool) outcome" where
  "KeyOK e =
     (case e of
        None \<Rightarrow> Ret ([], False)
      | Some el \<Rightarrow>
          (case el_value el of
             None \<Rightarrow> Ret ([], False)
           | Some v \<Rightarrow>
               if v_offset v = 0 then Ret ([], False)
               else (case v_data v of
                       None \<Rightarrow> Ret ([], False)
                     | Some xs \<Rightarrow>
                         (case subslice xs (unat (v_start v + 1)) (unat (v_offset v - 1)) of
                            Panic \<Rightarrow> Panic
                          | Ret k \<Rightarrow> Ret (k, True)))))"

definition Key :: "'d Element option \<Rightarrow> byte list outcome" where
  "Key e =
     (case KeyOK e of
        Panic \<Rightarrow> Panic
      | Ret (k, ok) \<Rightarrow> if \<not> ok then Panic else Ret k)"

definition Equal :: "('d, 'w) collab \<Rightarrow> 'd Element option \<Rightarrow> 'd Element option \<Rightarrow> bool outcome" where
  "Equal C e e2 =
     (case (e, e2) of
        (None, None) \<Rightarrow> Ret True
      | (None, Some b) \<Rightarrow> Ret False
      | (Some a, None) \<Rightarrow> Ret False
      | (Some a, Some b) \<Rightarrow>
          (case Key e of
             Panic \<Rightarrow> Panic
           | Ret k1 \<Rightarrow>
               (case Key e2 of
                  Panic \<Rightarrow> Panic
                | Ret k2 \<Rightarrow>
                    if k1 \<noteq> k2 then Ret False
                    else (case (el_value a, el_value b) of
                            (Some v1, Some v2) \<Rightarrow> value_Equal C v1 v2
                          | _ \<Rightarrow> Panic))))"

section \<open>Serialization\<close>

text \<open>
  Modelled from the spec: \<^verbatim>\<open>readi32\<close> (package \<^verbatim>\<open>bsonx\<close>, not in \<^verbatim>\<open>element.go\<close>) reads a
  4-byte field; the layout is little-endian throughout. A subslice shorter than four bytes
  is an index out of range.
\<close>

definition readi32 :: "byte list \<Rightarrow> int32 outcome" where
  "readi32 bs =
     (if length bs < 4 then Panic
      else Ret (ucast (bs ! 0) OR push_bit 8 (ucast (bs ! 1))
                OR push_bit 16 (ucast (bs ! 2)) OR push_bit 24 (ucast (bs ! 3))))"

text \<open>
  Modelled from the spec: the four bytes of a 32-bit length field, little-endian, as the
  scalar codec writes them.
\<close>

definition le32 :: "int32 \<Rightarrow> byte list" where
  "le32 i = [ucast i, ucast (drop_bit 8 i), ucast (drop_bit 16 i), ucast (drop_bit 24 i)]"

text \<open>
  Modelled from the spec: \<^verbatim>\<open>elements.Int32.Encode\<close> (package \<^verbatim>\<open>elements\<close>, not in
  \<^verbatim>\<open>element.go\<close>), the scalar codec \<^verbatim>\<open>encodeInt32(offset, buffer, value) -> error\<close>:
  it writes 4 bytes, little-endian, and fails if offset+4 exceeds the buffer, leaving
  the buffer as it was.
\<close>

definition Int32_Encode :: "uint \<Rightarrow> byte list \<Rightarrow> int32 \<Rightarrow> error option \<times> byte list" where
  "Int32_Encode st writer i =
     (if length writer < unat st + 4 then (Some ErrTooSmall, writer)
      else (None, take (unat st) writer @ le32 i @ drop (unat st + 4) writer))"

text \<open>
  The locals \<^verbatim>\<open>startToWrite\<close> and \<^verbatim>\<open>needed\<close> of \<^verbatim>\<open>writeByteSlice\<close> (lines 166 to 176),
  in \<^verbatim>\<open>uint\<close> arithmetic.
\<close>

definition startToWrite :: "bool \<Rightarrow> 'd Value \<Rightarrow> uint" where
  "startToWrite key v = (if key then ucast (v_start v) else ucast (v_offset v))"

definition needed :: "bool \<Rightarrow> uint \<Rightarrow> uint32 \<Rightarrow> 'd Value \<Rightarrow> uint" where
  "needed key st sz v =
     (if key then st + ucast sz
      else st + ucast sz - (ucast (v_offset v) - ucast (v_start v) - 1))"

text \<open>
  The result of a write is the byte count, the error, the element's buffer
  \<^verbatim>\<open>e.value.data\<close> as the call leaves it (the code-with-scope case writes into it) and
  the destination as the call leaves it.

  \<^verbatim>\<open>n = copy(b[start:], e.value.data[startToWrite:e.value.start+size])\<close>, the body of the
  \<^verbatim>\<open>default\<close> case and of the document and array cases when \<^verbatim>\<open>e.value.d == nil\<close>. The
  upper bound is a \<^verbatim>\<open>uint32\<close> sum.
\<close>

definition copyVerbatim ::
  "byte list option \<Rightarrow> bool \<Rightarrow> uint \<Rightarrow> uint32 \<Rightarrow> byte list \<Rightarrow> 'd Value
     \<Rightarrow> (int \<times> error option \<times> byte list option \<times> byte list) outcome" where
  "copyVerbatim dat key st sz b v =
     (case copyInto b (unat st)
             (subslice (bytesOf dat) (unat (startToWrite key v)) (unat (v_start v + sz))) of
        Panic \<Rightarrow> Panic
      | Ret (n, b') \<Rightarrow> Ret (int n, None, dat, b'))"

text \<open>
  The cases \<^verbatim>\<open>'\x03'\<close> and \<^verbatim>\<open>'\x04'\<close> with \<^verbatim>\<open>e.value.d != nil\<close> (lines 190 to 201 and
  208 to 221); \<open>wr\<close> is the document's or the array's \<^verbatim>\<open>writeByteSlice\<close>.
\<close>

definition writeOverride ::
  "('d \<Rightarrow> uint \<Rightarrow> uint32 \<Rightarrow> byte list \<Rightarrow> (int \<times> error option \<times> byte list) outcome)
     \<Rightarrow> bool \<Rightarrow> uint \<Rightarrow> uint32 \<Rightarrow> byte list \<Rightarrow> 'd Value \<Rightarrow> 'd
     \<Rightarrow> (int \<times> error option \<times> byte list option \<times> byte list) outcome" where
  "writeOverride wr key st sz b v dd =
     (let header = v_offset v - v_start v;
          sz' = sz - header
      in (case (if key
                then copyInto b (unat st)
                       (subslice (bytesOf (v_data v)) (unat (startToWrite key v)) (unat (v_offset v)))
                else Ret (0, b)) of
            Panic \<Rightarrow> Panic
          | Ret (n, b1) \<Rightarrow>
              (case wr dd (st + word_of_nat n) sz' b1 of
                 Panic \<Rightarrow> Panic
               | Ret (nn, err, b2) \<Rightarrow> Ret (int n + nn, err, v_data v, b2))))"

text \<open>The case \<^verbatim>\<open>'\x0F'\<close> (lines 222 to 270), which falls through to the default copy.\<close>

definition writeCodeWithScope ::
  "('d, 'w) collab \<Rightarrow> bool \<Rightarrow> uint \<Rightarrow> uint32 \<Rightarrow> byte list \<Rightarrow> 'd Value
     \<Rightarrow> (int \<times> error option \<times> byte list option \<times> byte list) outcome" where
  "writeCodeWithScope C key st sz b v =
     (let dat = bytesOf (v_data v);
          codeStart = v_offset v + 4
      in (case (case subslice dat (unat codeStart) (unat (codeStart + 4)) of
                  Panic \<Rightarrow> Panic | Ret s \<Rightarrow> readi32 s) of
            Panic \<Rightarrow> Panic
          | Ret codeLength \<Rightarrow>
              (case v_d v of
                 Some dd \<Rightarrow>
                   (let lengthWithoutScope = 4 + 4 + codeLength
                    in (case doc_Validate C dd of
                          Panic \<Rightarrow> Panic
                        | Ret (scopeLength, Some err) \<Rightarrow> Ret (0, Some err, v_data v, b)
                        | Ret (scopeLength, None) \<Rightarrow>
                            (let codeWithScopeLength = lengthWithoutScope + scopeLength
                             in (case Int32_Encode (ucast (v_offset v)) dat codeWithScopeLength of
                                   (Some err, dat') \<Rightarrow> Ret (0, Some err, v_data v, b)
                                 | (None, dat') \<Rightarrow>
                                     (let codeEnd = v_offset v + lengthWithoutScope
                                      in (case copyInto b (unat st)
                                                (subslice dat' (unat (startToWrite key v)) (unat codeEnd)) of
                                            Panic \<Rightarrow> Panic
                                          | Ret (n, b1) \<Rightarrow>
                                              (case doc_writeByteSlice C dd (st + word_of_nat n) scopeLength b1 of
                                                 Panic \<Rightarrow> Panic
                                               | Ret (nn, err, b2) \<Rightarrow>
                                                   Ret (int n + nn, err, Some dat', b2))))))))
               | None \<Rightarrow>
                   (let scopeStart = codeStart + 4 + codeLength
                    in (case (case subslice dat (unat scopeStart) (unat (scopeStart + 4)) of
                                Panic \<Rightarrow> Panic | Ret s \<Rightarrow> readi32 s) of
                          Panic \<Rightarrow> Panic
                        | Ret scopeLength \<Rightarrow>
                            (let codeWithScopeEnd = scopeStart + scopeLength;
                                 codeWithScopeLength = codeWithScopeEnd - v_offset v
                             in (case Int32_Encode (ucast (v_offset v)) dat codeWithScopeLength of
                                   (Some err, dat') \<Rightarrow> Ret (0, Some err, v_data v, b)
                                 | (None, dat') \<Rightarrow> copyVerbatim (Some dat') key st sz b v)))))))"

definition writeByteSlice ::
  "('d, 'w) collab \<Rightarrow> 'd Element option \<Rightarrow> bool \<Rightarrow> uint \<Rightarrow> uint32 \<Rightarrow> byte list
     \<Rightarrow> (int \<times> error option \<times> byte list option \<times> byte list) outcome" where
  "writeByteSlice C e key st sz b =
     (case e of
        None \<Rightarrow> Panic
      | Some el \<Rightarrow>
          (case el_value el of
             None \<Rightarrow> Panic
           | Some v \<Rightarrow>
               if word_of_nat (length b) < needed key st sz v
               then Ret (0, Some ErrTooSmall, v_data v, b)
               else (case index (bytesOf (v_data v)) (unat (v_start v)) of
                       Panic \<Rightarrow> Panic
                     | Ret tag \<Rightarrow>
                         if tag = 0x03 then
                           (case v_d v of
                              None \<Rightarrow> copyVerbatim (v_data v) key st sz b v
                            | Some dd \<Rightarrow> writeOverride (doc_writeByteSlice C) key st sz b v dd)
                         else if tag = 0x04 then
                           (case v_d v of
                              None \<Rightarrow> copyVerbatim (v_data v) key st sz b v
                            | Some dd \<Rightarrow> writeOverride (arr_writeByteSlice C) key st sz b v dd)
                         else if tag = 0x0F then writeCodeWithScope C key st sz b v
                         else copyVerbatim (v_data v) key st sz b v)))"

text \<open>The buffer \<^verbatim>\<open>e.value.data\<close> of an element pointer, nil when there is none to read.\<close>

definition dataOf :: "'d Element option \<Rightarrow> byte list option" where
  "dataOf e =
     (case e of
        None \<Rightarrow> None
      | Some el \<Rightarrow> (case el_value el of None \<Rightarrow> None | Some v \<Rightarrow> v_data v))"

text \<open>
  \<^verbatim>\<open>MarshalBSON\<close> returns the bytes (nil on error), the error and the element's buffer
  as the call leaves it.
\<close>

definition MarshalBSON ::
  "('d, 'w) collab \<Rightarrow> 'd Element option
     \<Rightarrow> (byte list option \<times> error option \<times> byte list option) outcome" where
  "MarshalBSON C e =
     (case Validate C e of
        Panic \<Rightarrow> Panic
      | Ret (sz, Some err) \<Rightarrow> Ret (None, Some err, dataOf e)
      | Ret (sz, None) \<Rightarrow>
          (let b = replicate (unat sz) 0
           in (case writeByteSlice C e True 0 sz b of
                 Panic \<Rightarrow> Panic
               | Ret (n, Some err, dat, b') \<Rightarrow> Ret (None, Some err, dat)
               | Ret (n, None, dat, b') \<Rightarrow> Ret (Some b', None, dat))))"

definition WriteTo ::
  "('d, 'w) collab \<Rightarrow> 'd Element option \<Rightarrow> 'w
     \<Rightarrow> (int \<times> error option \<times> byte list option \<times> 'w) outcome" where
  "WriteTo C e w =
     (case MarshalBSON C e of
        Panic \<Rightarrow> Panic
      | Ret (val, Some err, dat) \<Rightarrow> Ret (0, Some (WithStack err), dat, w)
      | Ret (val, None, dat) \<Rightarrow>
          (case io_Write C w (bytesOf val) of
             Panic \<Rightarrow> Panic
           | Ret (n, err, w') \<Rightarrow> Ret (n, map_option WithStack err, dat, w')))"

text \<open>
  The \<^verbatim>\<open>writer interface{}\<close> argument of \<^verbatim>\<open>WriteElement\<close>: a byte slice, an
  \<^verbatim>\<open>io.Writer\<close>, or a value of any other type.
\<close>

datatype 'w target = ByteSlice "byte list" | Writer 'w | OtherKind

definition writeElement ::
  "('d, 'w) collab \<Rightarrow> 'd Element option \<Rightarrow> bool \<Rightarrow> uint \<Rightarrow> 'w target
     \<Rightarrow> (int \<times> error option \<times> byte list option \<times> 'w target) outcome" where
  "writeElement C e key st writer =
     (case Validate C e of
        Panic \<Rightarrow> Panic
      | Ret (sz, Some err) \<Rightarrow> Ret (0, Some err, dataOf e, writer)
      | Ret (sz, None) \<Rightarrow>
          (case writer of
             ByteSlice w \<Rightarrow>
               (case writeByteSlice C e key st sz w of
                  Panic \<Rightarrow> Panic
                | Ret (n, Some err, dat, w') \<Rightarrow> Ret (0, Some ErrTooSmall, dat, ByteSlice w')
                | Ret (n, None, dat, w') \<Rightarrow> Ret (n, None, dat, ByteSlice w'))
           | Writer w \<Rightarrow>
               (case WriteTo C e w of
                  Panic \<Rightarrow> Panic
                | Ret (n, err, dat, w') \<Rightarrow> Ret (n, err, dat, Writer w'))
           | OtherKind \<Rightarrow> Ret (0, Some InvalidWriter, dataOf e, writer)))"

definition WriteElement ::
  "('d, 'w) collab \<Rightarrow> 'd Element option \<Rightarrow> uint \<Rightarrow> 'w target
     \<Rightarrow> (int \<times> error option \<times> byte list option \<times> 'w target) outcome" where
  "WriteElement C e st writer = writeElement C e True st writer"

section \<open>Stand-ins for the collaborators\<close>

text \<open>
  Concrete collaborators for evaluating the functions above on examples. A document is
  its own encoding; \<open>vr\<close> is what \<^verbatim>\<open>(*Value).validate\<close> returns and \<open>werr\<close> the error, if
  any, of the container's \<^verbatim>\<open>writeByteSlice\<close>. The \<^verbatim>\<open>io.Writer\<close> appends to the bytes
  written so far.
\<close>

definition stubWrite ::
  "error option \<Rightarrow> byte list \<Rightarrow> uint \<Rightarrow> uint32 \<Rightarrow> byte list
     \<Rightarrow> (int \<times> error option \<times> byte list) outcome" where
  "stubWrite werr dd st sz b =
     (case werr of
        Some x \<Rightarrow> Ret (0, Some x, b)
      | None \<Rightarrow> Ret (int (fst (copyAt b (unat st) dd)), None, snd (copyAt b (unat st) dd)))"

definition stubCollab ::
  "(uint32 \<times> error option) \<Rightarrow> error option \<Rightarrow> (byte list, byte list) collab" where
  "stubCollab vr werr =
     \<lparr> value_validate = (\<lambda>v. Ret vr),
       value_Equal = (\<lambda>v1 v2. Ret (drop (unat (v_offset v1)) (bytesOf (v_data v1))
                                    = drop (unat (v_offset v2)) (bytesOf (v_data v2)))),
       doc_Validate = (\<lambda>dd. Ret (word_of_nat (length dd), None)),
       doc_writeByteSlice = stubWrite werr,
       arr_writeByteSlice = stubWrite werr,
       io_Write = (\<lambda>w bs. Ret (int (length bs), None, w @ bs)) \<rparr>"

section \<open>Properties\<close>

subsection \<open>The key scan\<close>

lemma keyScan_count:
  "unat endp \<le> length xs \<Longrightarrow>
   keyScan xs pos endp tot =
     Ret (pos + word_of_nat (scanned xs pos endp), tot + word_of_nat (scanned xs pos endp))"
  unfolding scanned_def
proof (induction xs pos endp tot rule: keyScan.induct)
  case (1 xs pos endp tot)
  show ?case
  proof (cases "pos < endp")
    case False
    then have "unat endp - unat pos = 0"
      by (simp add: word_less_nat_alt)
    with False show ?thesis
      by (simp add: keyScan.simps [of xs pos endp tot])
  next
    case True
    then have lt: "unat pos < unat endp"
      by (simp add: word_less_nat_alt)
    with "1.prems" have inr: "unat pos < length xs"
      by simp
    from True have suc: "unat (pos + 1) = Suc (unat pos)"
      by unat_arith
    have dr: "drop (unat pos) xs = xs ! unat pos # drop (Suc (unat pos)) xs"
      using inr by (simp add: Cons_nth_drop_Suc)
    have tk: "take (unat endp - unat pos) (drop (unat pos) xs) =
              xs ! unat pos # take (unat endp - Suc (unat pos)) (drop (Suc (unat pos)) xs)"
    proof -
      from lt have "unat endp - unat pos = Suc (unat endp - Suc (unat pos))"
        by arith
      with dr show ?thesis
        by simp
    qed
    show ?thesis
    proof (cases "xs ! unat pos = 0")
      case True
      with \<open>pos < endp\<close> inr tk show ?thesis
        by (simp add: keyScan.simps [of xs pos endp tot] index_def)
    next
      case False
      have ih: "keyScan xs (pos + 1) endp (tot + 1) =
        Ret (pos + 1 + word_of_nat (length (takeWhile (\<lambda>c. c \<noteq> 0)
                 (take (unat endp - unat (pos + 1)) (drop (unat (pos + 1)) xs)))),
             tot + 1 + word_of_nat (length (takeWhile (\<lambda>c. c \<noteq> 0)
                 (take (unat endp - unat (pos + 1)) (drop (unat (pos + 1)) xs)))))"
        using "1.IH" [OF True _ False] "1.prems" inr by (simp add: index_def)
      from False \<open>pos < endp\<close> inr tk suc ih show ?thesis
        by (simp add: keyScan.simps [of xs pos endp tot] index_def add.assoc)
    qed
  qed
qed

lemma clampedEnd_le: "unat (clampedEnd v xs) \<le> length xs"
proof (cases "v_offset v > word_of_nat (length xs)")
  case True
  then show ?thesis
    by (simp add: clampedEnd_def unat_of_nat)
next
  case False
  then have "unat (v_offset v) \<le> unat (word_of_nat (length xs) :: uint32)"
    by (simp add: word_le_nat_alt not_less)
  also have "\<dots> \<le> length xs"
    by (simp add: unat_of_nat)
  finally show ?thesis
    using False by (simp add: clampedEnd_def)
qed

text \<open>
  Whenever \<^verbatim>\<open>validateKey\<close> returns on a set buffer, its size is the count of bytes
  scanned, plus one for the terminator when there is no error; the only error is
  \<^verbatim>\<open>InvalidKey\<close>.
\<close>

lemma validateKey_result:
  assumes "v_data v = Some xs" and "validateKey v = Ret (n, err)"
  shows "(err = Some InvalidKey \<and> n = word_of_nat (scanned xs (v_start v + 1) (clampedEnd v xs)))
       \<or> (err = None \<and> n = word_of_nat (scanned xs (v_start v + 1) (clampedEnd v xs)) + 1)"
  using assms keyScan_count [OF clampedEnd_le [of v xs], of "v_start v + 1" 0]
  by (auto simp: validateKey_def Let_def split: outcome.splits if_splits)

lemma scanned_le: "scanned xs pos endp \<le> unat endp - unat pos"
  unfolding scanned_def
  by (rule order_trans [OF length_takeWhile_le]) simp

text \<open>
  When \<^verbatim>\<open>start+1\<close> does not lie past the clamped end, \<^verbatim>\<open>validateKey\<close> returns: with
  \<^verbatim>\<open>InvalidKey\<close> and the count when the scan reaches the end, with the count plus one
  when it stops at a null byte.
\<close>

lemma validateKey_in_bounds:
  fixes v :: "'d Value"
  defines "pos0 \<equiv> v_start v + 1"
  assumes dat: "v_data v = Some xs" and le: "pos0 \<le> clampedEnd v xs"
  shows "validateKey v =
     (if unat pos0 + scanned xs pos0 (clampedEnd v xs) = unat (clampedEnd v xs)
      then Ret (word_of_nat (scanned xs pos0 (clampedEnd v xs)), Some InvalidKey)
      else Ret (word_of_nat (scanned xs pos0 (clampedEnd v xs)) + 1, None))"
proof -
  let ?e = "clampedEnd v xs"
  let ?k = "scanned xs pos0 ?e"
  let ?ys = "take (unat ?e - unat pos0) (drop (unat pos0) xs)"
  have ple: "unat pos0 \<le> unat ?e"
    using le by (simp add: word_le_nat_alt)
  have ele: "unat ?e \<le> length xs"
    by (rule clampedEnd_le)
  have kle: "?k \<le> unat ?e - unat pos0"
    by (rule scanned_le)
  have "unat ?e < 2 ^ 32"
    using unsigned_less [of ?e, where 'a = nat] by simp
  with ple kle have small: "unat pos0 + ?k < 2 ^ 32"
    by simp
  then have kk: "unat (word_of_nat ?k :: uint32) = ?k"
    by (simp add: unat_of_nat take_bit_nat_eq_self)
  have up: "unat (pos0 + word_of_nat ?k) = unat pos0 + ?k"
    using small kk by (simp add: unat_add_lem [THEN iffD1])
  have ks: "keyScan xs pos0 ?e 0 = Ret (pos0 + word_of_nat ?k, word_of_nat ?k)"
    using keyScan_count [OF ele, of pos0 0] by simp
  have eqiff: "(pos0 + word_of_nat ?k = ?e) = (unat pos0 + ?k = unat ?e)"
    using up by (metis word_unat_eq_iff)
  show ?thesis
  proof (cases "unat pos0 + ?k = unat ?e")
    case True
    with ks eqiff dat show ?thesis
      by (simp add: validateKey_def pos0_def [symmetric])
  next
    case False
    with ple kle have klt: "?k < unat ?e - unat pos0"
      by simp
    have ylen: "length ?ys = unat ?e - unat pos0"
      using ele ple by simp
    have "?k = length (takeWhile (\<lambda>c. c \<noteq> 0) ?ys)"
      by (simp add: scanned_def)
    with klt ylen have "\<not> (?ys ! ?k \<noteq> 0)"
      using nth_length_takeWhile [of "\<lambda>c. c \<noteq> 0" ?ys] by simp
    moreover have "?ys ! ?k = xs ! (unat pos0 + ?k)"
      using klt ele ple by simp
    ultimately have z: "xs ! (unat pos0 + ?k) = 0"
      by simp
    have inr: "unat pos0 + ?k < length xs"
      using klt ele by simp
    from False ks eqiff dat z inr up show ?thesis
      by (simp add: validateKey_def pos0_def [symmetric] index_def)
  qed
qed

subsection \<open>Validate\<close>

text \<open>
  Claim C4. \<^verbatim>\<open>Validate\<close> returns \<^verbatim>\<open>NilElement\<close> with size 0 on a nil element and
  \<^verbatim>\<open>UninitializedElement\<close> when the value is nil (size 0) or the buffer is absent (size 1,
  the tag). Every other failure returns the running size with the first error: the
  tag plus the key bytes scanned with \<^verbatim>\<open>InvalidKey\<close>, or the tag, the key with its
  terminator and the payload's partial size with the payload's error. No failure
  returns anything else.
\<close>

theorem Validate_failure_partial_size:
  "Validate C None = Ret (0, Some NilElement)
   \<and> Validate C (Some \<lparr>el_value = None\<rparr>) = Ret (0, Some UninitializedElement)
   \<and> (v_data v = None \<longrightarrow>
        Validate C (Some \<lparr>el_value = Some v\<rparr>) = Ret (1, Some UninitializedElement))
   \<and> (v_data v = Some xs \<and> validateKey v = Ret (n, Some err) \<longrightarrow>
        err = InvalidKey
        \<and> n = word_of_nat (scanned xs (v_start v + 1) (clampedEnd v xs))
        \<and> Validate C (Some \<lparr>el_value = Some v\<rparr>) = Ret (1 + n, Some InvalidKey))
   \<and> (v_data v = Some xs \<and> validateKey v = Ret (n, None)
        \<and> value_validate C v = Ret (m, Some err) \<longrightarrow>
        n = word_of_nat (scanned xs (v_start v + 1) (clampedEnd v xs)) + 1
        \<and> Validate C (Some \<lparr>el_value = Some v\<rparr>) = Ret (1 + n + m, Some err))
   \<and> (Validate C (Some \<lparr>el_value = Some v\<rparr>) = Ret (s, Some err) \<longrightarrow>
        (\<exists>n. validateKey v = Ret (n, Some err) \<and> s = 1 + n)
        \<or> (\<exists>n m. validateKey v = Ret (n, None) \<and> value_validate C v = Ret (m, Some err)
               \<and> s = 1 + n + m))"
proof -
  have a: "Validate C None = Ret (0, Some NilElement)"
    by (simp add: Validate_def)
  have b: "Validate C (Some \<lparr>el_value = None\<rparr>) = Ret (0, Some UninitializedElement)"
    by (simp add: Validate_def)
  have c: "v_data v = None \<longrightarrow>
        Validate C (Some \<lparr>el_value = Some v\<rparr>) = Ret (1, Some UninitializedElement)"
    by (simp add: Validate_def validateKey_def)
  have d: "v_data v = Some xs \<and> validateKey v = Ret (n, Some err) \<longrightarrow>
        err = InvalidKey
        \<and> n = word_of_nat (scanned xs (v_start v + 1) (clampedEnd v xs))
        \<and> Validate C (Some \<lparr>el_value = Some v\<rparr>) = Ret (1 + n, Some InvalidKey)"
    using validateKey_result [of v xs n "Some err"] by (auto simp: Validate_def)
  have e: "v_data v = Some xs \<and> validateKey v = Ret (n, None)
        \<and> value_validate C v = Ret (m, Some err) \<longrightarrow>
        n = word_of_nat (scanned xs (v_start v + 1) (clampedEnd v xs)) + 1
        \<and> Validate C (Some \<lparr>el_value = Some v\<rparr>) = Ret (1 + n + m, Some err)"
    using validateKey_result [of v xs n None] by (auto simp: Validate_def)
  have f: "Validate C (Some \<lparr>el_value = Some v\<rparr>) = Ret (s, Some err) \<longrightarrow>
        (\<exists>n. validateKey v = Ret (n, Some err) \<and> s = 1 + n)
        \<or> (\<exists>n m. validateKey v = Ret (n, None) \<and> value_validate C v = Ret (m, Some err)
               \<and> s = 1 + n + m)"
    by (auto simp: Validate_def Let_def split: outcome.splits option.splits)
  from a b c d e f show ?thesis
    by blast
qed

lemma ex_key_unterminated:
  "validateKey \<lparr>v_start = 0, v_offset = 2, v_data = Some [2, 0x78], v_d = (None :: byte list option)\<rparr>
     = Ret (1, Some InvalidKey)"
  by (simp add: validateKey_def clampedEnd_def keyScan.simps index_def)

lemma ex_key_x:
  "validateKey \<lparr>v_start = 0, v_offset = 3, v_data = Some [2, 0x78, 0], v_d = (None :: byte list option)\<rparr>
     = Ret (2, None)"
  by (simp add: validateKey_def clampedEnd_def keyScan.simps index_def)

theorem Validate_failure_partial_size_witness:
  "Validate (stubCollab (3, Some (Structural 7)) None)
      (Some \<lparr>el_value = Some \<lparr>v_start = 0, v_offset = 2, v_data = None, v_d = None\<rparr>\<rparr>)
     = Ret (1, Some UninitializedElement)
   \<and> Validate (stubCollab (3, Some (Structural 7)) None)
      (Some \<lparr>el_value = Some \<lparr>v_start = 0, v_offset = 2, v_data = Some [2, 0x78], v_d = None\<rparr>\<rparr>)
     = Ret (2, Some InvalidKey)
   \<and> Validate (stubCollab (3, Some (Structural 7)) None)
      (Some \<lparr>el_value = Some \<lparr>v_start = 0, v_offset = 3, v_data = Some [2, 0x78, 0], v_d = None\<rparr>\<rparr>)
     = Ret (6, Some (Structural 7))
   \<and> ((\<exists>n. validateKey \<lparr>v_start = 0, v_offset = 2, v_data = Some [2, 0x78],
                              v_d = (None :: byte list option)\<rparr> = Ret (n, Some InvalidKey)
             \<and> 2 = 1 + n)
        \<or> (\<exists>n m. validateKey \<lparr>v_start = 0, v_offset = 2, v_data = Some [2, 0x78],
                              v_d = (None :: byte list option)\<rparr> = Ret (n, None)
             \<and> value_validate (stubCollab (3, Some (Structural 7)) None)
                   \<lparr>v_start = 0, v_offset = 2, v_data = Some [2, 0x78], v_d = None\<rparr>
                 = Ret (m, Some InvalidKey)
             \<and> 2 = 1 + n + m))"
proof -
  let ?C = "stubCollab (3, Some (Structural 7)) None"
  let ?v1 = "\<lparr>v_start = 0, v_offset = 2, v_data = None, v_d = (None :: byte list option)\<rparr>"
  let ?v2 = "\<lparr>v_start = 0, v_offset = 2, v_data = Some [2, 0x78], v_d = (None :: byte list option)\<rparr>"
  let ?v3 = "\<lparr>v_start = 0, v_offset = 3, v_data = Some [2, 0x78, 0], v_d = (None :: byte list option)\<rparr>"
  have h1: "v_data ?v1 = None"
    by simp
  have h2: "v_data ?v2 = Some [2, 0x78] \<and> validateKey ?v2 = Ret (1, Some InvalidKey)"
    using ex_key_unterminated by simp
  have h3: "v_data ?v3 = Some [2, 0x78, 0] \<and> validateKey ?v3 = Ret (2, None)
        \<and> value_validate ?C ?v3 = Ret (3, Some (Structural 7))"
    using ex_key_x by (simp add: stubCollab_def)
  note T1 = Validate_failure_partial_size [where C = ?C and v = ?v1]
  note T2 = Validate_failure_partial_size [where C = ?C and v = ?v2 and xs = "[2, 0x78]"
      and n = 1 and err = InvalidKey]
  note T3 = Validate_failure_partial_size [where C = ?C and v = ?v3 and xs = "[2, 0x78, 0]"
      and n = 2 and m = 3 and err = "Structural 7"]
  have r1: "Validate ?C (Some \<lparr>el_value = Some ?v1\<rparr>) = Ret (1, Some UninitializedElement)"
    by (rule T1 [THEN conjunct2, THEN conjunct2, THEN conjunct1, THEN mp, OF h1])
  have "Validate ?C (Some \<lparr>el_value = Some ?v2\<rparr>) = Ret (1 + 1, Some InvalidKey)"
    by (rule T2 [THEN conjunct2, THEN conjunct2, THEN conjunct2, THEN conjunct1, THEN mp,
          OF h2, THEN conjunct2, THEN conjunct2])
  then have r2: "Validate ?C (Some \<lparr>el_value = Some ?v2\<rparr>) = Ret (2, Some InvalidKey)"
    by simp
  have "Validate ?C (Some \<lparr>el_value = Some ?v3\<rparr>) = Ret (1 + 2 + 3, Some (Structural 7))"
    by (rule T3 [THEN conjunct2, THEN conjunct2, THEN conjunct2, THEN conjunct2, THEN conjunct1,
          THEN mp, OF h3, THEN conjunct2])
  then have r3: "Validate ?C (Some \<lparr>el_value = Some ?v3\<rparr>) = Ret (6, Some (Structural 7))"
    by simp
  note T4 = Validate_failure_partial_size [where C = ?C and v = ?v2 and s = 2
      and err = InvalidKey]
  have r4: "(\<exists>n. validateKey ?v2 = Ret (n, Some InvalidKey) \<and> 2 = 1 + n)
        \<or> (\<exists>n m. validateKey ?v2 = Ret (n, None)
             \<and> value_validate ?C ?v2 = Ret (m, Some InvalidKey) \<and> 2 = 1 + n + m)"
    by (rule T4 [THEN conjunct2, THEN conjunct2, THEN conjunct2, THEN conjunct2, THEN conjunct2,
          THEN mp, OF r2])
  from r1 r2 r3 r4 show ?thesis
    by (intro conjI)
qed

text \<open>
  Claim C5. The claim says that key validation never panics and reports \<^verbatim>\<open>InvalidKey\<close>
  when no terminator lies before the clamped end. On an element whose \<^verbatim>\<open>start+1\<close> is
  past the clamped end (here a 3-byte buffer with \<^verbatim>\<open>start = 3\<close>, \<^verbatim>\<open>offset = 5\<close>) the loop
  does not run, \<^verbatim>\<open>pos == end\<close> is false and \<^verbatim>\<open>e.value.data[pos]\<close> is read out of range:
  \<^verbatim>\<open>validateKey\<close>, and \<^verbatim>\<open>Validate\<close> with it, panic.
\<close>

theorem validateKey_panics_past_buffer:
  "validateKey \<lparr>v_start = 3, v_offset = 5, v_data = Some [2, 0x61, 0], v_d = (None :: 'd option)\<rparr> = Panic
   \<and> Validate C (Some \<lparr>el_value = Some \<lparr>v_start = 3, v_offset = 5, v_data = Some [2, 0x61, 0],
                                        v_d = (None :: 'd option)\<rparr>\<rparr>) = Panic"
  by (simp add: Validate_def validateKey_def clampedEnd_def keyScan.simps index_def)

subsection \<open>Key and Equal\<close>

text \<open>
  Claim C8, as amended. \<^verbatim>\<open>KeyOK\<close> reports not-found, with the empty key and without a
  panic, exactly when the element is nil, its value is nil, its offset is 0 or its
  buffer is absent. \<^verbatim>\<open>Key\<close> panics exactly when \<^verbatim>\<open>KeyOK\<close> reports not-found or itself
  panics, and returns the key \<^verbatim>\<open>KeyOK\<close> found otherwise.
\<close>

theorem KeyOK_not_found_exactly_unset:
  "((\<exists>k. KeyOK e = Ret (k, False)) \<longleftrightarrow>
      (e = None \<or> (\<exists>el. e = Some el \<and> (el_value el = None \<or>
         (\<exists>v. el_value el = Some v \<and> (v_offset v = 0 \<or> v_data v = None))))))
   \<and> ((\<exists>k. KeyOK e = Ret (k, False)) \<longrightarrow> KeyOK e = Ret ([], False))
   \<and> (Key e = Panic \<longleftrightarrow> KeyOK e = Panic \<or> KeyOK e = Ret ([], False))
   \<and> (\<forall>k. Key e = Ret k \<longleftrightarrow> KeyOK e = Ret (k, True))"
  by (auto simp: KeyOK_def Key_def split: option.splits outcome.splits)

theorem KeyOK_not_found_exactly_unset_witness:
  "KeyOK (None :: byte list Element option) = Ret ([], False)
   \<and> Key (None :: byte list Element option) = Panic
   \<and> Key (Some \<lparr>el_value = Some \<lparr>v_start = 0, v_offset = 3, v_data = Some [2, 0x78, 0],
                                    v_d = (None :: byte list option)\<rparr>\<rparr>) = Ret [0x78]"
proof -
  let ?e = "Some \<lparr>el_value = Some \<lparr>v_start = 0, v_offset = 3, v_data = Some [2, 0x78, 0],
                                    v_d = (None :: byte list option)\<rparr>\<rparr>"
  note T0 = KeyOK_not_found_exactly_unset [where e = "None :: byte list Element option"]
  note T1 = KeyOK_not_found_exactly_unset [where e = ?e]
  have nf: "\<exists>k. KeyOK (None :: byte list Element option) = Ret (k, False)"
    using T0 [THEN conjunct1] by simp
  have a: "KeyOK (None :: byte list Element option) = Ret ([], False)"
    by (rule T0 [THEN conjunct2, THEN conjunct1, THEN mp, OF nf])
  have b: "Key (None :: byte list Element option) = Panic"
    using T0 [THEN conjunct2, THEN conjunct2, THEN conjunct1] a by simp
  have k: "KeyOK ?e = Ret ([0x78], True)"
    by (simp add: KeyOK_def subslice_def)
  have c: "Key ?e = Ret [0x78]"
    using T1 [THEN conjunct2, THEN conjunct2, THEN conjunct2, THEN spec, of "[0x78]"] k by simp
  from a b c show ?thesis
    by (intro conjI)
qed

text \<open>
  The claim as stated fails: an element that is malformed in another way (its key span
  \<^verbatim>\<open>[start+1, offset-1)\<close> runs past a 1-byte buffer) makes \<^verbatim>\<open>KeyOK\<close> panic on the
  slice.
\<close>

theorem KeyOK_panics_on_malformed:
  "KeyOK (Some \<lparr>el_value = Some \<lparr>v_start = 0, v_offset = 5, v_data = Some [2],
                                   v_d = (None :: byte list option)\<rparr>\<rparr>) = Panic"
  by (simp add: KeyOK_def subslice_def)

text \<open>
  Claim C9, as amended. \<^verbatim>\<open>Equal\<close> returns true on two nil elements and false when
  exactly one is nil. On two non-nil elements that both have a key it returns false
  when the keys differ and the payloads' \<^verbatim>\<open>Equal\<close> otherwise. On two non-nil elements one
  of which has no key (\<^verbatim>\<open>Key\<close> panics on it, as it does when the value is nil) it panics.
\<close>

theorem Equal_by_cases:
  "Equal C None None = Ret True
   \<and> Equal C None (Some b) = Ret False
   \<and> Equal C (Some a) None = Ret False
   \<and> (KeyOK (Some a) = Ret (k1, True) \<and> KeyOK (Some b) = Ret (k2, True)
        \<and> el_value a = Some v1 \<and> el_value b = Some v2 \<longrightarrow>
        Equal C (Some a) (Some b) = (if k1 = k2 then value_Equal C v1 v2 else Ret False))
   \<and> (Key (Some a) = Panic \<or> Key (Some b) = Panic \<longrightarrow> Equal C (Some a) (Some b) = Panic)
   \<and> (el_value a = None \<longrightarrow> Key (Some a) = Panic)"
  by (auto simp: Equal_def Key_def KeyOK_def split: option.splits outcome.splits)

theorem Equal_by_cases_witness:
  "Equal (stubCollab (0, None) None)
      (Some \<lparr>el_value = Some \<lparr>v_start = 0, v_offset = 3, v_data = Some [2, 0x78, 0, 7], v_d = None\<rparr>\<rparr>)
      (Some \<lparr>el_value = Some \<lparr>v_start = 1, v_offset = 4, v_data = Some [9, 2, 0x78, 0, 7], v_d = None\<rparr>\<rparr>)
     = Ret True
   \<and> Equal (stubCollab (0, None) None)
      (Some \<lparr>el_value = Some \<lparr>v_start = 0, v_offset = 3, v_data = Some [2, 0x78, 0, 7], v_d = None\<rparr>\<rparr>)
      (Some \<lparr>el_value = None\<rparr>)
     = Panic"
proof -
  let ?C = "stubCollab (0, None) None"
  let ?v1 = "\<lparr>v_start = 0, v_offset = 3, v_data = Some [2, 0x78, 0, 7], v_d = (None :: byte list option)\<rparr>"
  let ?v2 = "\<lparr>v_start = 1, v_offset = 4, v_data = Some [9, 2, 0x78, 0, 7], v_d = (None :: byte list option)\<rparr>"
  let ?a = "\<lparr>el_value = Some ?v1\<rparr>"
  let ?b = "\<lparr>el_value = Some ?v2\<rparr>"
  let ?u = "\<lparr>el_value = (None :: byte list Value option)\<rparr>"
  note T1 = Equal_by_cases [where C = ?C and a = ?a and b = ?b and ?k1.0 = "[0x78]"
      and ?k2.0 = "[0x78]" and ?v1.0 = ?v1 and ?v2.0 = ?v2]
  note T2 = Equal_by_cases [where C = ?C and a = ?a and b = ?u]
  note T3 = Equal_by_cases [where C = ?C and a = ?u]
  have h: "KeyOK (Some ?a) = Ret ([0x78], True) \<and> KeyOK (Some ?b) = Ret ([0x78], True)
        \<and> el_value ?a = Some ?v1 \<and> el_value ?b = Some ?v2"
    by (simp add: KeyOK_def subslice_def)
  have "Equal ?C (Some ?a) (Some ?b) = (if [0x78 :: byte] = [0x78] then value_Equal ?C ?v1 ?v2 else Ret False)"
    by (rule T1 [THEN conjunct2, THEN conjunct2, THEN conjunct2, THEN conjunct1, THEN mp, OF h])
  then have r1: "Equal ?C (Some ?a) (Some ?b) = Ret True"
    by (simp add: stubCollab_def bytesOf_def)
  have "el_value ?u = None"
    by simp
  then have "Key (Some ?u) = Panic"
    by (rule T3 [THEN conjunct2, THEN conjunct2, THEN conjunct2, THEN conjunct2, THEN conjunct2, THEN mp])
  then have "Key (Some ?a) = Panic \<or> Key (Some ?u) = Panic"
    by (rule disjI2)
  then have r2: "Equal ?C (Some ?a) (Some ?u) = Panic"
    by (rule T2 [THEN conjunct2, THEN conjunct2, THEN conjunct2, THEN conjunct2, THEN conjunct1, THEN mp])
  from r1 r2 show ?thesis
    by (intro conjI)
qed

text \<open>
  The claim as stated fails: \<^verbatim>\<open>Equal\<close> on two non-nil elements whose value is nil
  panics in \<^verbatim>\<open>Key\<close>.
\<close>

theorem Equal_panics_on_nil_value:
  "Equal (stubCollab (0, None) None) (Some \<lparr>el_value = None\<rparr>) (Some \<lparr>el_value = None\<rparr>) = Panic"
  by (simp add: Equal_def Key_def KeyOK_def)

subsection \<open>Serialization: helper facts\<close>

lemma unat_ucast_32_64: "unat (ucast (x :: uint32) :: uint) = unat x"
  by (simp add: unsigned_ucast_eq take_bit_nat_eq_self unsigned_less [THEN less_le_trans])









lemma readi32_le32: "readi32 (le32 x) = Ret x"
proof -
  have "ucast (ucast x :: byte) OR push_bit 8 (ucast (ucast (drop_bit 8 x) :: byte))
        OR push_bit 16 (ucast (ucast (drop_bit 16 x) :: byte))
        OR push_bit 24 (ucast (ucast (drop_bit 24 x) :: byte)) = x" (is "?lhs = x")
  proof (rule bit_word_eqI)
    fix n
    assume "n < LENGTH(32)"
    then have n: "n < 32"
      by simp
    consider "n < 8" | "8 \<le> n" "n < 16" | "16 \<le> n" "n < 24" | "24 \<le> n"
      by linarith
    then show "bit ?lhs n = bit x n"
      using n by cases (auto simp: bit_simps)
  qed
  then show ?thesis
    by (simp add: readi32_def le32_def)
qed

lemma length_le32: "length (le32 i) = 4"
  by (simp add: le32_def)

lemma Int32_Encode_ok:
  "unat st + 4 \<le> length buf \<Longrightarrow>
   Int32_Encode st buf i = (None, take (unat st) buf @ le32 i @ drop (unat st + 4) buf)"
  by (simp add: Int32_Encode_def)

lemma length_patch:
  "p + 4 \<le> length dat \<Longrightarrow> length (take p dat @ le32 h @ drop (p + 4) dat) = length dat"
  by (simp add: length_le32)

lemma drop_patch:
  "p + 4 \<le> length dat \<Longrightarrow> take 4 (drop p (take p dat @ le32 h @ drop (p + 4) dat)) = le32 h"
  by (simp add: length_le32)

lemma subslice_patch:
  "p + 4 \<le> length dat \<Longrightarrow>
   subslice (take p dat @ le32 h @ drop (p + 4) dat) p (p + 4) = Ret (le32 h)"
  by (simp add: subslice_def length_le32)

lemma copyInto_Ret:
  "st \<le> length b \<Longrightarrow>
   copyInto b st (Ret src) =
     Ret (min (length b - st) (length src),
          take st b @ take (min (length b - st) (length src)) src
            @ drop (st + min (length b - st) (length src)) b)"
  by (simp add: copyInto_def copyAt_def Let_def)

lemma copied_window:
  assumes "lo \<le> p" and "p + k \<le> hi" and "hi \<le> length dat" and "st + (hi - lo) \<le> length b"
  shows "take k (drop (st + (p - lo))
           (take st b @ take (hi - lo) (drop lo dat) @ drop (st + (hi - lo)) b))
         = take k (drop p dat)"
proof -
  have len: "length (take (hi - lo) (drop lo dat)) = hi - lo"
    using assms by simp
  have "drop (st + (p - lo)) (take st b @ take (hi - lo) (drop lo dat) @ drop (st + (hi - lo)) b)
        = drop (p - lo) (take (hi - lo) (drop lo dat)) @ drop (st + (hi - lo)) b"
    using assms by simp
  moreover have "drop (p - lo) (take (hi - lo) (drop lo dat)) = take (hi - p) (drop p dat)"
    using assms by (simp add: drop_take)
  moreover have "k \<le> length (take (hi - p) (drop p dat))"
    using assms by simp
  ultimately show ?thesis
    using assms by simp
qed

lemma writeByteSlice_dispatch:
  assumes "el_value el = Some v"
    and "\<not> word_of_nat (length b) < needed key st sz v"
    and "index (bytesOf (v_data v)) (unat (v_start v)) = Ret tag"
  shows "writeByteSlice C (Some el) key st sz b =
     (if tag = 0x03 then
        (case v_d v of
           None \<Rightarrow> copyVerbatim (v_data v) key st sz b v
         | Some dd \<Rightarrow> writeOverride (doc_writeByteSlice C) key st sz b v dd)
      else if tag = 0x04 then
        (case v_d v of
           None \<Rightarrow> copyVerbatim (v_data v) key st sz b v
         | Some dd \<Rightarrow> writeOverride (arr_writeByteSlice C) key st sz b v dd)
      else if tag = 0x0F then writeCodeWithScope C key st sz b v
      else copyVerbatim (v_data v) key st sz b v)"
  using assms by (simp add: writeByteSlice_def)



lemma copyVerbatim_unfold:
  "copyVerbatim dat key st sz b v =
     (case copyInto b (unat st)
             (subslice (bytesOf dat) (unat (startToWrite key v)) (unat (v_start v + sz))) of
        Panic \<Rightarrow> Panic
      | Ret (n, b') \<Rightarrow> Ret (int n, None, dat, b'))"
  by (simp add: copyVerbatim_def)


lemma WriteElement_Writer_unfold:
  "writeElement C e key st (Writer w) =
     (case Validate C e of
        Panic \<Rightarrow> Panic
      | Ret (sz, Some err) \<Rightarrow> Ret (0, Some err, dataOf e, Writer w)
      | Ret (sz, None) \<Rightarrow>
          (case writeByteSlice C e True 0 sz (replicate (unat sz) 0) of
             Panic \<Rightarrow> Panic
           | Ret (n, Some err, dat, val) \<Rightarrow> Ret (0, Some (WithStack err), dat, Writer w)
           | Ret (n, None, dat, val) \<Rightarrow>
               (case io_Write C w val of
                  Panic \<Rightarrow> Panic
                | Ret (m, werr, w') \<Rightarrow> Ret (m, map_option WithStack werr, dat, Writer w'))))"
proof (cases "Validate C e")
  case Panic
  then show ?thesis
    by (simp add: writeElement_def)
next
  case (Ret r)
  obtain sz verr where r: "r = (sz, verr)"
    by (cases r)
  show ?thesis
  proof (cases verr)
    case (Some err)
    with Ret r show ?thesis
      by (simp add: writeElement_def)
  next
    case None
    with Ret r show ?thesis
      by (auto simp: writeElement_def WriteTo_def MarshalBSON_def Let_def bytesOf_def
            split: outcome.splits option.splits prod.splits)
  qed
qed

text \<open>
  An embedded-document element whose override's \<^verbatim>\<open>writeByteSlice\<close> fails: the header is
  copied and the override's error comes back with the bytes written so far.
\<close>

lemma ex_override_write_error:
  "writeByteSlice (stubCollab (5, None) (Some (Structural 7)))
      (Some \<lparr>el_value = Some \<lparr>v_start = 0, v_offset = 3,
           v_data = Some [3, 0x61, 0, 5, 0, 0, 0, 0], v_d = Some [5, 0, 0, 0, 0]\<rparr>\<rparr>)
      True 0 8 [0, 0, 0, 0, 0, 0, 0, 0]
     = Ret (3, Some (Structural 7), Some [3, 0x61, 0, 5, 0, 0, 0, 0], [3, 0x61, 0, 0, 0, 0, 0, 0])"
  by (simp add: writeByteSlice_def needed_def index_def bytesOf_def writeOverride_def
        copyInto_def copyAt_def subslice_def startToWrite_def stubCollab_def stubWrite_def)

subsection \<open>Serialization: the claims\<close>




text \<open>
  Claim C1. For a code-with-scope element (tag \<^verbatim>\<open>0x0F\<close>) whose override is present and
  validates with size \<open>scopeSize\<close>, a write that passes the capacity check first writes
  the header \<^verbatim>\<open>4 + 4 + codeLength + scopeSize\<close> into the source buffer at \<^verbatim>\<open>offset\<close>
  (\<open>codeLength\<close> read at \<^verbatim>\<open>offset+4\<close>), then copies the source from \<^verbatim>\<open>startToWrite\<close> to
  the end of the code string into the destination, then hands the destination to the
  override's \<^verbatim>\<open>writeByteSlice\<close> at the advanced offset with \<open>scopeSize\<close>. When the copy
  fits, the four bytes of the destination at the header's place are the encoding of
  that sum, and stay so in any later destination that agrees on the copied prefix.
\<close>

theorem writeByteSlice_code_with_scope_override:
  fixes v :: "'d Value" and codeLength scopeSize :: int32 and key :: bool
  defines "dat \<equiv> bytesOf (v_data v)"
    and "codeStart \<equiv> v_offset v + 4"
    and "lo \<equiv> unat (startToWrite key v)"
  defines "hdr \<equiv> 4 + 4 + codeLength + scopeSize"
    and "codeEnd \<equiv> v_offset v + (4 + 4 + codeLength)"
  defines "dat' \<equiv> take (unat (v_offset v)) dat @ le32 hdr @ drop (unat (v_offset v) + 4) dat"
  assumes "el_value el = Some v" and "v_d v = Some dd"
    and "\<not> word_of_nat (length b) < needed key st sz v"
    and "index dat (unat (v_start v)) = Ret 0x0F"
    and "subslice dat (unat codeStart) (unat (codeStart + 4)) = Ret cl"
    and "readi32 cl = Ret codeLength"
    and "doc_Validate C dd = Ret (scopeSize, None)"
    and "unat (v_offset v) + 4 \<le> length dat"
  shows "writeByteSlice C (Some el) key st sz b =
           (case copyInto b (unat st) (subslice dat' lo (unat codeEnd)) of
              Panic \<Rightarrow> Panic
            | Ret (n, b1) \<Rightarrow>
                (case doc_writeByteSlice C dd (st + word_of_nat n) scopeSize b1 of
                   Panic \<Rightarrow> Panic
                 | Ret (nn, err, b2) \<Rightarrow> Ret (int n + nn, err, Some dat', b2)))
         \<and> subslice dat' (unat (v_offset v)) (unat (v_offset v) + 4) = Ret (le32 hdr)
         \<and> readi32 (le32 hdr) = Ret hdr
         \<and> (lo \<le> unat (v_offset v) \<and> unat (v_offset v) + 4 \<le> unat codeEnd
              \<and> unat codeEnd \<le> length dat \<and> unat st + (unat codeEnd - lo) \<le> length b \<longrightarrow>
             (\<exists>b1. copyInto b (unat st) (subslice dat' lo (unat codeEnd))
                     = Ret (unat codeEnd - lo, b1)
                 \<and> take (unat codeEnd - lo) (drop (unat st) b1)
                     = take (unat codeEnd - lo) (drop lo dat')
                 \<and> take 4 (drop (unat st + (unat (v_offset v) - lo)) b1) = le32 hdr
                 \<and> (\<forall>b2. take (unat st + (unat codeEnd - lo)) b2
                            = take (unat st + (unat codeEnd - lo)) b1 \<longrightarrow>
                          take 4 (drop (unat st + (unat (v_offset v) - lo)) b2) = le32 hdr)))"
proof -
  have len': "length dat' = length dat"
    using assms(14) by (simp add: dat'_def length_le32)
  have enc: "Int32_Encode (ucast (v_offset v)) dat hdr = (None, dat')"
    using assms(14) by (simp add: Int32_Encode_ok unat_ucast_32_64 dat'_def)
  have "writeByteSlice C (Some el) key st sz b = writeCodeWithScope C key st sz b v"
    using assms(7,9,10) by (simp add: writeByteSlice_dispatch dat_def)
  also have "\<dots> = (case copyInto b (unat st) (subslice dat' lo (unat codeEnd)) of
              Panic \<Rightarrow> Panic
            | Ret (n, b1) \<Rightarrow>
                (case doc_writeByteSlice C dd (st + word_of_nat n) scopeSize b1 of
                   Panic \<Rightarrow> Panic
                 | Ret (nn, err, b2) \<Rightarrow> Ret (int n + nn, err, Some dat', b2)))"
  proof -
    have enc2: "Int32_Encode (ucast (v_offset v)) dat (8 + codeLength + scopeSize) = (None, dat')"
      using enc by (simp add: hdr_def)
    have ce: "v_offset v + (8 + codeLength) = codeEnd"
      by (simp add: codeEnd_def)
    show ?thesis
      using assms(8,11-13) enc2 ce
      by (simp add: writeCodeWithScope_def Let_def dat_def [symmetric] codeStart_def [symmetric]
            lo_def [symmetric])
  qed
  finally have A: "writeByteSlice C (Some el) key st sz b =
           (case copyInto b (unat st) (subslice dat' lo (unat codeEnd)) of
              Panic \<Rightarrow> Panic
            | Ret (n, b1) \<Rightarrow>
                (case doc_writeByteSlice C dd (st + word_of_nat n) scopeSize b1 of
                   Panic \<Rightarrow> Panic
                 | Ret (nn, err, b2) \<Rightarrow> Ret (int n + nn, err, Some dat', b2)))" .
  have B: "subslice dat' (unat (v_offset v)) (unat (v_offset v) + 4) = Ret (le32 hdr)"
    using assms(14) by (simp add: dat'_def subslice_patch)
  have D: "\<exists>b1. copyInto b (unat st) (subslice dat' lo (unat codeEnd))
                     = Ret (unat codeEnd - lo, b1)
                 \<and> take (unat codeEnd - lo) (drop (unat st) b1)
                     = take (unat codeEnd - lo) (drop lo dat')
                 \<and> take 4 (drop (unat st + (unat (v_offset v) - lo)) b1) = le32 hdr
                 \<and> (\<forall>b2. take (unat st + (unat codeEnd - lo)) b2
                            = take (unat st + (unat codeEnd - lo)) b1 \<longrightarrow>
                          take 4 (drop (unat st + (unat (v_offset v) - lo)) b2) = le32 hdr)"
    if fit: "lo \<le> unat (v_offset v)" "unat (v_offset v) + 4 \<le> unat codeEnd"
      "unat codeEnd \<le> length dat" "unat st + (unat codeEnd - lo) \<le> length b"
  proof -
    let ?hi = "unat codeEnd" and ?p = "unat (v_offset v)" and ?s = "unat st"
    let ?src = "take (?hi - lo) (drop lo dat')"
    let ?b1 = "take ?s b @ ?src @ drop (?s + (?hi - lo)) b"
    have lohi: "lo \<le> ?hi"
      using fit by simp
    have srclen: "length ?src = ?hi - lo"
      using fit len' by simp
    have sub: "subslice dat' lo ?hi = Ret ?src"
      using fit len' lohi by (simp add: subslice_def)
    have mn: "min (length b - ?s) (?hi - lo) = ?hi - lo"
      using fit by simp
    have cp: "copyInto b ?s (subslice dat' lo ?hi) = Ret (?hi - lo, ?b1)"
      using fit sub srclen mn copyInto_Ret [of ?s b ?src] by simp
    have w1: "take (?hi - lo) (drop (?s + (lo - lo)) ?b1) = take (?hi - lo) (drop lo dat')"
      using copied_window [of lo lo "?hi - lo" ?hi dat' ?s b] fit len' lohi by simp
    have w2: "take 4 (drop (?s + (?p - lo)) ?b1) = take 4 (drop ?p dat')"
      using copied_window [of lo ?p 4 ?hi dat' ?s b] fit len' by simp
    have hd: "take 4 (drop ?p dat') = le32 hdr"
      unfolding dat'_def using assms(14) by (rule drop_patch)
    have w3: "take 4 (drop (?s + (?p - lo)) b2) = le32 hdr"
      if eq: "take (?s + (?hi - lo)) b2 = take (?s + (?hi - lo)) ?b1" for b2
    proof -
      have "take 4 (drop (?s + (?p - lo)) b2)
            = take 4 (drop (?s + (?p - lo)) (take (?s + (?hi - lo)) b2))"
        using fit by (simp add: drop_take)
      also have "\<dots> = take 4 (drop (?s + (?p - lo)) (take (?s + (?hi - lo)) ?b1))"
        using eq by simp
      also have "\<dots> = take 4 (drop (?s + (?p - lo)) ?b1)"
        using fit by (simp only: drop_take take_take) simp
      finally show ?thesis
        using w2 hd by simp
    qed
    from cp w1 w2 hd w3 show ?thesis
      by (intro exI [of _ ?b1]) simp
  qed
  show ?thesis
  proof (intro conjI impI)
    show "writeByteSlice C (Some el) key st sz b =
           (case copyInto b (unat st) (subslice dat' lo (unat codeEnd)) of
              Panic \<Rightarrow> Panic
            | Ret (n, b1) \<Rightarrow>
                (case doc_writeByteSlice C dd (st + word_of_nat n) scopeSize b1 of
                   Panic \<Rightarrow> Panic
                 | Ret (nn, err, b2) \<Rightarrow> Ret (int n + nn, err, Some dat', b2)))"
      by (rule A)
    show "subslice dat' (unat (v_offset v)) (unat (v_offset v) + 4) = Ret (le32 hdr)"
      by (rule B)
    show "readi32 (le32 hdr) = Ret hdr"
      by (rule readi32_le32)
  next
    assume "lo \<le> unat (v_offset v) \<and> unat (v_offset v) + 4 \<le> unat codeEnd
              \<and> unat codeEnd \<le> length dat \<and> unat st + (unat codeEnd - lo) \<le> length b"
    then show "\<exists>b1. copyInto b (unat st) (subslice dat' lo (unat codeEnd))
                     = Ret (unat codeEnd - lo, b1)
                 \<and> take (unat codeEnd - lo) (drop (unat st) b1)
                     = take (unat codeEnd - lo) (drop lo dat')
                 \<and> take 4 (drop (unat st + (unat (v_offset v) - lo)) b1) = le32 hdr
                 \<and> (\<forall>b2. take (unat st + (unat codeEnd - lo)) b2
                            = take (unat st + (unat codeEnd - lo)) b1 \<longrightarrow>
                          take 4 (drop (unat st + (unat (v_offset v) - lo)) b2) = le32 hdr)"
      by (elim conjE) (rule D)
  qed
qed

theorem writeByteSlice_code_with_scope_override_witness:
  "writeByteSlice (stubCollab (14, None) None)
     (Some \<lparr>el_value = Some \<lparr>v_start = 0, v_offset = 3,
          v_data = Some [0x0F, 0x61, 0, 0xFF, 0, 0, 0, 1, 0, 0, 0, 0, 5, 0, 0, 0, 0],
          v_d = Some [7, 0, 0, 0, 8, 0, 0]\<rparr>\<rparr>)
     True 1 19 [0, 0, 0, 0, 0, 0, 0, 0, 0, 0, 0, 0, 0, 0, 0, 0, 0, 0, 0, 0]
   = Ret (19, None, Some [0x0F, 0x61, 0, 16, 0, 0, 0, 1, 0, 0, 0, 0, 5, 0, 0, 0, 0],
          [0, 0x0F, 0x61, 0, 16, 0, 0, 0, 1, 0, 0, 0, 0, 7, 0, 0, 0, 8, 0, 0])
   \<and> take 4 (drop (1 + (3 - 0))
         [0, 0x0F, 0x61, 0, 16, 0, 0, 0, 1, 0, 0, 0, 0, 7, 0, 0, 0, 8, 0, 0 :: byte])
       = le32 (4 + 4 + 1 + 7)"
proof -
  let ?C = "stubCollab (14, None) None"
  let ?dat = "[0x0F, 0x61, 0, 0xFF, 0, 0, 0, 1, 0, 0, 0, 0, 5, 0, 0, 0, 0] :: byte list"
  let ?dd = "[7, 0, 0, 0, 8, 0, 0] :: byte list"
  let ?v = "\<lparr>v_start = 0, v_offset = 3, v_data = Some ?dat, v_d = Some ?dd\<rparr>"
  let ?el = "\<lparr>el_value = Some ?v\<rparr>"
  let ?b = "[0, 0, 0, 0, 0, 0, 0, 0, 0, 0, 0, 0, 0, 0, 0, 0, 0, 0, 0, 0] :: byte list"
  let ?out = "[0, 0x0F, 0x61, 0, 16, 0, 0, 0, 1, 0, 0, 0, 0, 7, 0, 0, 0, 8, 0, 0] :: byte list"
  have h1: "el_value ?el = Some ?v" and h2: "v_d ?v = Some ?dd"
    by simp_all
  have h3: "\<not> word_of_nat (length ?b) < needed True 1 19 ?v"
    by (simp add: needed_def)
  have h4: "index (bytesOf (v_data ?v)) (unat (v_start ?v)) = Ret 0x0F"
    by (simp add: index_def bytesOf_def)
  have h5: "subslice (bytesOf (v_data ?v)) (unat (v_offset ?v + 4)) (unat (v_offset ?v + 4 + 4))
            = Ret [1, 0, 0, 0]"
    by (simp add: subslice_def bytesOf_def)
  have h6: "readi32 [1, 0, 0, 0] = Ret 1"
    by (simp add: readi32_def)
  have h7: "doc_Validate ?C ?dd = Ret (7, None)"
    by (simp add: stubCollab_def)
  have h8: "unat (v_offset ?v) + 4 \<le> length (bytesOf (v_data ?v))"
    by (simp add: bytesOf_def)
  note T = writeByteSlice_code_with_scope_override
         [where C = ?C and key = True and st = 1 and sz = 19 and b = ?b,
          OF h1 h2 h3 h4 h5 h6 h7 h8]
  have r: "writeByteSlice ?C (Some ?el) True 1 19 ?b
           = Ret (19, None, Some [0x0F, 0x61, 0, 16, 0, 0, 0, 1, 0, 0, 0, 0, 5, 0, 0, 0, 0], ?out)"
    using T [THEN conjunct1]
    by (simp add: bytesOf_def le32_def copyInto_def copyAt_def subslice_def startToWrite_def
          stubCollab_def stubWrite_def)
  have fit: "unat (startToWrite True ?v) \<le> unat (v_offset ?v)
      \<and> unat (v_offset ?v) + 4 \<le> unat (v_offset ?v + (4 + 4 + 1))
      \<and> unat (v_offset ?v + (4 + 4 + 1)) \<le> length (bytesOf (v_data ?v))
      \<and> unat (1 :: uint) + (unat (v_offset ?v + (4 + 4 + 1)) - unat (startToWrite True ?v))
          \<le> length ?b"
    by (simp add: startToWrite_def bytesOf_def)
  from T [THEN conjunct2, THEN conjunct2, THEN conjunct2, THEN mp, OF fit]
  obtain b1 where
    cp: "copyInto ?b (unat (1 :: uint))
           (subslice (take (unat (v_offset ?v)) (bytesOf (v_data ?v)) @ le32 (4 + 4 + 1 + 7)
                        @ drop (unat (v_offset ?v) + 4) (bytesOf (v_data ?v)))
              (unat (startToWrite True ?v)) (unat (v_offset ?v + (4 + 4 + 1))))
         = Ret (unat (v_offset ?v + (4 + 4 + 1)) - unat (startToWrite True ?v), b1)"
    and fr: "\<forall>b2. take (unat (1 :: uint) + (unat (v_offset ?v + (4 + 4 + 1)) - unat (startToWrite True ?v))) b2
                  = take (unat (1 :: uint) + (unat (v_offset ?v + (4 + 4 + 1)) - unat (startToWrite True ?v))) b1
               \<longrightarrow> take 4 (drop (unat (1 :: uint) + (unat (v_offset ?v) - unat (startToWrite True ?v))) b2)
                   = le32 (4 + 4 + 1 + 7)"
    by blast
  from cp have b1: "b1 = [0, 0x0F, 0x61, 0, 16, 0, 0, 0, 1, 0, 0, 0, 0, 0, 0, 0, 0, 0, 0, 0]"
    by (simp add: bytesOf_def le32_def copyInto_def copyAt_def subslice_def startToWrite_def)
  have "take (unat (1 :: uint) + (unat (v_offset ?v + (4 + 4 + 1)) - unat (startToWrite True ?v))) ?out
        = take (unat (1 :: uint) + (unat (v_offset ?v + (4 + 4 + 1)) - unat (startToWrite True ?v))) b1"
    by (simp add: b1 startToWrite_def)
  with fr have "take 4 (drop (unat (1 :: uint) + (unat (v_offset ?v) - unat (startToWrite True ?v))) ?out)
                   = le32 (4 + 4 + 1 + 7)"
    by blast
  then have hd: "take 4 (drop (1 + (3 - 0)) ?out) = le32 (4 + 4 + 1 + 7)"
    by (simp add: startToWrite_def)
  from r hd show ?thesis
    by (intro conjI)
qed



text \<open>
  Claim C6. For a code-with-scope element with no override, a write that passes the
  capacity check reads the code length at \<^verbatim>\<open>offset+4\<close> and the scope's own length prefix
  at \<^verbatim>\<open>scopeStart\<close>, writes \<^verbatim>\<open>(scopeStart + scopeLength) - offset\<close> into the source buffer
  at \<^verbatim>\<open>offset\<close>, and then copies \<^verbatim>\<open>buffer[startToWrite : start+size]\<close> of the patched
  buffer as the default case does.
\<close>

theorem writeByteSlice_code_with_scope_no_override:
  fixes v :: "'d Value" and codeLength scopeLength :: int32
  defines "dat \<equiv> bytesOf (v_data v)"
    and "codeStart \<equiv> v_offset v + 4"
  defines "scopeStart \<equiv> codeStart + 4 + codeLength"
  defines "dat' \<equiv> take (unat (v_offset v)) dat
                    @ le32 (scopeStart + scopeLength - v_offset v)
                    @ drop (unat (v_offset v) + 4) dat"
  assumes "el_value el = Some v" and "v_d v = None"
    and "\<not> word_of_nat (length b) < needed key st sz v"
    and "index dat (unat (v_start v)) = Ret 0x0F"
    and "subslice dat (unat codeStart) (unat (codeStart + 4)) = Ret cl"
    and "readi32 cl = Ret codeLength"
    and "subslice dat (unat scopeStart) (unat (scopeStart + 4)) = Ret sl"
    and "readi32 sl = Ret scopeLength"
    and "unat (v_offset v) + 4 \<le> length dat"
  shows "writeByteSlice C (Some el) key st sz b =
           (case copyInto b (unat st)
                   (subslice dat' (unat (startToWrite key v)) (unat (v_start v + sz))) of
              Panic \<Rightarrow> Panic
            | Ret (n, b') \<Rightarrow> Ret (int n, None, Some dat', b'))
         \<and> subslice dat' (unat (v_offset v)) (unat (v_offset v) + 4)
             = Ret (le32 (scopeStart + scopeLength - v_offset v))
         \<and> readi32 (le32 (scopeStart + scopeLength - v_offset v))
             = Ret (scopeStart + scopeLength - v_offset v)
         \<and> length dat' = length dat"
proof -
  have enc: "Int32_Encode (ucast (v_offset v)) dat (scopeStart + scopeLength - v_offset v)
             = (None, dat')"
    using assms(13) by (simp add: Int32_Encode_ok unat_ucast_32_64 dat'_def)
  have "writeByteSlice C (Some el) key st sz b = writeCodeWithScope C key st sz b v"
    using assms(5,7,8) by (simp add: writeByteSlice_dispatch dat_def)
  also have "\<dots> = copyVerbatim (Some dat') key st sz b v"
    using assms(6,9-12) enc
    by (simp add: writeCodeWithScope_def Let_def dat_def [symmetric] codeStart_def [symmetric]
          scopeStart_def [symmetric])
  finally have "writeByteSlice C (Some el) key st sz b =
           (case copyInto b (unat st)
                   (subslice dat' (unat (startToWrite key v)) (unat (v_start v + sz))) of
              Panic \<Rightarrow> Panic
            | Ret (n, b') \<Rightarrow> Ret (int n, None, Some dat', b'))"
    by (simp add: copyVerbatim_unfold bytesOf_def)
  moreover have "subslice dat' (unat (v_offset v)) (unat (v_offset v) + 4)
             = Ret (le32 (scopeStart + scopeLength - v_offset v))"
    using assms(13) by (simp add: dat'_def subslice_patch)
  moreover have "length dat' = length dat"
    using assms(13) by (simp add: dat'_def length_le32)
  ultimately show ?thesis
    by (simp add: readi32_le32)
qed

theorem writeByteSlice_code_with_scope_no_override_witness:
  "writeByteSlice (stubCollab (14, None) None)
     (Some \<lparr>el_value = Some \<lparr>v_start = 0, v_offset = 3,
          v_data = Some [0x0F, 0x61, 0, 0xFF, 0, 0, 0, 1, 0, 0, 0, 0, 5, 0, 0, 0, 0], v_d = None\<rparr>\<rparr>)
     False 2 17 [0, 0, 0, 0, 0, 0, 0, 0, 0, 0, 0, 0, 0, 0, 0, 0, 0]
   = Ret (14, None, Some [0x0F, 0x61, 0, 14, 0, 0, 0, 1, 0, 0, 0, 0, 5, 0, 0, 0, 0],
          [0, 0, 14, 0, 0, 0, 1, 0, 0, 0, 0, 5, 0, 0, 0, 0, 0])"
proof -
  let ?dat = "[0x0F, 0x61, 0, 0xFF, 0, 0, 0, 1, 0, 0, 0, 0, 5, 0, 0, 0, 0] :: byte list"
  let ?v = "\<lparr>v_start = 0, v_offset = 3, v_data = Some ?dat, v_d = (None :: byte list option)\<rparr>"
  let ?el = "\<lparr>el_value = Some ?v\<rparr>"
  let ?b = "[0, 0, 0, 0, 0, 0, 0, 0, 0, 0, 0, 0, 0, 0, 0, 0, 0] :: byte list"
  have h1: "el_value ?el = Some ?v" and h2: "v_d ?v = None"
    by simp_all
  have h3: "\<not> word_of_nat (length ?b) < needed False 2 17 ?v"
    by (simp add: needed_def)
  have h4: "index (bytesOf (v_data ?v)) (unat (v_start ?v)) = Ret 0x0F"
    by (simp add: index_def bytesOf_def)
  have h5: "subslice (bytesOf (v_data ?v)) (unat (v_offset ?v + 4)) (unat (v_offset ?v + 4 + 4))
            = Ret [1, 0, 0, 0]"
    by (simp add: subslice_def bytesOf_def)
  have h6: "readi32 [1, 0, 0, 0] = Ret 1"
    by (simp add: readi32_def)
  have h7: "subslice (bytesOf (v_data ?v)) (unat (v_offset ?v + 4 + 4 + 1))
              (unat (v_offset ?v + 4 + 4 + 1 + 4)) = Ret [5, 0, 0, 0]"
    by (simp add: subslice_def bytesOf_def)
  have h8: "readi32 [5, 0, 0, 0] = Ret 5"
    by (simp add: readi32_def)
  have h9: "unat (v_offset ?v) + 4 \<le> length (bytesOf (v_data ?v))"
    by (simp add: bytesOf_def)
  from writeByteSlice_code_with_scope_no_override
         [where C = "stubCollab (14, None) None" and key = False and st = 2 and sz = 17,
          OF h1 h2 h3 h4 h5 h6 h7 h8 h9, THEN conjunct1]
  show ?thesis
    by (simp add: bytesOf_def le32_def copyInto_def copyAt_def subslice_def startToWrite_def)
qed

text \<open>
  Claim C7. The claim says that \<^verbatim>\<open>WriteElement\<close> on a byte slice surfaces a nested error
  unchanged. On an embedded-document element whose override's \<^verbatim>\<open>writeByteSlice\<close> returns
  a structural error, \<^verbatim>\<open>writeByteSlice\<close> returns that error with the 3 bytes written, and
  \<^verbatim>\<open>WriteElement\<close> replaces it by \<^verbatim>\<open>ErrTooSmall\<close> with count 0; \<^verbatim>\<open>MarshalBSON\<close>, on the same
  element, returns the error itself.
\<close>

theorem WriteElement_masks_nested_error:
  "writeByteSlice (stubCollab (5, None) (Some (Structural 7)))
      (Some \<lparr>el_value = Some \<lparr>v_start = 0, v_offset = 3,
           v_data = Some [3, 0x61, 0, 5, 0, 0, 0, 0], v_d = Some [5, 0, 0, 0, 0]\<rparr>\<rparr>)
      True 0 8 [0, 0, 0, 0, 0, 0, 0, 0]
     = Ret (3, Some (Structural 7), Some [3, 0x61, 0, 5, 0, 0, 0, 0], [3, 0x61, 0, 0, 0, 0, 0, 0])
   \<and> WriteElement (stubCollab (5, None) (Some (Structural 7)))
      (Some \<lparr>el_value = Some \<lparr>v_start = 0, v_offset = 3,
           v_data = Some [3, 0x61, 0, 5, 0, 0, 0, 0], v_d = Some [5, 0, 0, 0, 0]\<rparr>\<rparr>)
      0 (ByteSlice [0, 0, 0, 0, 0, 0, 0, 0])
     = Ret (0, Some ErrTooSmall, Some [3, 0x61, 0, 5, 0, 0, 0, 0],
            ByteSlice [3, 0x61, 0, 0, 0, 0, 0, 0])
   \<and> MarshalBSON (stubCollab (5, None) (Some (Structural 7)))
      (Some \<lparr>el_value = Some \<lparr>v_start = 0, v_offset = 3,
           v_data = Some [3, 0x61, 0, 5, 0, 0, 0, 0], v_d = Some [5, 0, 0, 0, 0]\<rparr>\<rparr>)
     = Ret (None, Some (Structural 7), Some [3, 0x61, 0, 5, 0, 0, 0, 0])"
proof -
  let ?C = "stubCollab (5, None) (Some (Structural 7))"
  let ?v = "\<lparr>v_start = 0, v_offset = 3, v_data = Some [3, 0x61, 0, 5, 0, 0, 0, 0],
             v_d = Some [5, 0, 0, 0, 0 :: byte]\<rparr>"
  let ?e = "Some \<lparr>el_value = Some ?v\<rparr>"
  let ?b = "[0, 0, 0, 0, 0, 0, 0, 0] :: byte list"
  have vk: "validateKey ?v = Ret (2, None)"
    by (simp add: validateKey_def clampedEnd_def keyScan.simps index_def)
  have va: "Validate ?C ?e = Ret (8, None)"
    by (simp add: Validate_def vk stubCollab_def)
  have w: "writeByteSlice ?C ?e True 0 8 ?b
     = Ret (3, Some (Structural 7), Some [3, 0x61, 0, 5, 0, 0, 0, 0], [3, 0x61, 0, 0, 0, 0, 0, 0])"
    by (rule ex_override_write_error)
  have rep: "replicate 8 (0 :: byte) = ?b"
    by code_simp
  have we: "WriteElement ?C ?e 0 (ByteSlice ?b)
     = Ret (0, Some ErrTooSmall, Some [3, 0x61, 0, 5, 0, 0, 0, 0],
            ByteSlice [3, 0x61, 0, 0, 0, 0, 0, 0])"
    by (simp add: WriteElement_def writeElement_def va w)
  have mb: "MarshalBSON ?C ?e = Ret (None, Some (Structural 7), Some [3, 0x61, 0, 5, 0, 0, 0, 0])"
    by (simp add: MarshalBSON_def va rep w)
  from w we mb show ?thesis
    by (intro conjI)
qed

text \<open>
  Claim C10, as amended. \<^verbatim>\<open>WriteElement\<close> validates the element first and returns a
  validation failure as it is, whatever the target. After that a stream writer
  ignores the offset: the element is validated again, written with its key at offset 0
  into a fresh buffer of exactly the validated size, and that buffer is handed to the
  writer, whose byte count is returned (errors come back wrapped by \<^verbatim>\<open>WithStack\<close>). A
  byte slice is written at the offset. A target of any other kind gives
  \<^verbatim>\<open>InvalidWriter\<close>.
\<close>

theorem WriteElement_by_target:
  "WriteElement C e st (Writer w) = WriteElement C e st' (Writer w)
   \<and> WriteElement C e st (Writer w) =
     (case Validate C e of
        Panic \<Rightarrow> Panic
      | Ret (sz, Some err) \<Rightarrow> Ret (0, Some err, dataOf e, Writer w)
      | Ret (sz, None) \<Rightarrow>
          (case writeByteSlice C e True 0 sz (replicate (unat sz) 0) of
             Panic \<Rightarrow> Panic
           | Ret (n, Some err, dat, val) \<Rightarrow> Ret (0, Some (WithStack err), dat, Writer w)
           | Ret (n, None, dat, val) \<Rightarrow>
               (case io_Write C w val of
                  Panic \<Rightarrow> Panic
                | Ret (m, werr, w') \<Rightarrow> Ret (m, map_option WithStack werr, dat, Writer w'))))
   \<and> WriteElement C e st (ByteSlice b) =
     (case Validate C e of
        Panic \<Rightarrow> Panic
      | Ret (sz, Some err) \<Rightarrow> Ret (0, Some err, dataOf e, ByteSlice b)
      | Ret (sz, None) \<Rightarrow>
          (case writeByteSlice C e True st sz b of
             Panic \<Rightarrow> Panic
           | Ret (n, Some err, dat, b') \<Rightarrow> Ret (0, Some ErrTooSmall, dat, ByteSlice b')
           | Ret (n, None, dat, b') \<Rightarrow> Ret (n, None, dat, ByteSlice b')))
   \<and> WriteElement C e st OtherKind =
     (case Validate C e of
        Panic \<Rightarrow> Panic
      | Ret (sz, Some err) \<Rightarrow> Ret (0, Some err, dataOf e, OtherKind)
      | Ret (sz, None) \<Rightarrow> Ret (0, Some InvalidWriter, dataOf e, OtherKind))"
proof (intro conjI)
  show "WriteElement C e st (Writer w) = WriteElement C e st' (Writer w)"
    by (simp add: WriteElement_def WriteElement_Writer_unfold)
  show "WriteElement C e st (Writer w) =
     (case Validate C e of
        Panic \<Rightarrow> Panic
      | Ret (sz, Some err) \<Rightarrow> Ret (0, Some err, dataOf e, Writer w)
      | Ret (sz, None) \<Rightarrow>
          (case writeByteSlice C e True 0 sz (replicate (unat sz) 0) of
             Panic \<Rightarrow> Panic
           | Ret (n, Some err, dat, val) \<Rightarrow> Ret (0, Some (WithStack err), dat, Writer w)
           | Ret (n, None, dat, val) \<Rightarrow>
               (case io_Write C w val of
                  Panic \<Rightarrow> Panic
                | Ret (m, werr, w') \<Rightarrow> Ret (m, map_option WithStack werr, dat, Writer w'))))"
    unfolding WriteElement_def by (rule WriteElement_Writer_unfold)
  show "WriteElement C e st (ByteSlice b) =
     (case Validate C e of
        Panic \<Rightarrow> Panic
      | Ret (sz, Some err) \<Rightarrow> Ret (0, Some err, dataOf e, ByteSlice b)
      | Ret (sz, None) \<Rightarrow>
          (case writeByteSlice C e True st sz b of
             Panic \<Rightarrow> Panic
           | Ret (n, Some err, dat, b') \<Rightarrow> Ret (0, Some ErrTooSmall, dat, ByteSlice b')
           | Ret (n, None, dat, b') \<Rightarrow> Ret (n, None, dat, ByteSlice b')))"
    by (auto simp: WriteElement_def writeElement_def
          split: outcome.splits option.splits prod.splits)
  show "WriteElement C e st OtherKind =
     (case Validate C e of
        Panic \<Rightarrow> Panic
      | Ret (sz, Some err) \<Rightarrow> Ret (0, Some err, dataOf e, OtherKind)
      | Ret (sz, None) \<Rightarrow> Ret (0, Some InvalidWriter, dataOf e, OtherKind))"
    by (auto simp: WriteElement_def writeElement_def
          split: outcome.splits option.splits prod.splits)
qed

theorem WriteElement_by_target_witness:
  "WriteElement (stubCollab (7, None) None)
      (Some \<lparr>el_value = Some \<lparr>v_start = 0, v_offset = 3,
          v_data = Some [2, 0x78, 0, 3, 0, 0, 0, 0x68, 0x69, 0], v_d = None\<rparr>\<rparr>)
      5 (Writer [0xAA])
     = Ret (10, None, Some [2, 0x78, 0, 3, 0, 0, 0, 0x68, 0x69, 0],
            Writer [0xAA, 2, 0x78, 0, 3, 0, 0, 0, 0x68, 0x69, 0])
   \<and> WriteElement (stubCollab (7, None) None)
      (Some \<lparr>el_value = Some \<lparr>v_start = 0, v_offset = 3,
          v_data = Some [2, 0x78, 0, 3, 0, 0, 0, 0x68, 0x69, 0], v_d = None\<rparr>\<rparr>)
      5 OtherKind
     = Ret (0, Some InvalidWriter, Some [2, 0x78, 0, 3, 0, 0, 0, 0x68, 0x69, 0], OtherKind)"
proof -
  let ?C = "stubCollab (7, None) None"
  let ?dat = "[2, 0x78, 0, 3, 0, 0, 0, 0x68, 0x69, 0] :: byte list"
  let ?v = "\<lparr>v_start = 0, v_offset = 3, v_data = Some ?dat, v_d = (None :: byte list option)\<rparr>"
  let ?e = "Some \<lparr>el_value = Some ?v\<rparr>"
  have vk: "validateKey ?v = Ret (2, None)"
    by (simp add: validateKey_def clampedEnd_def keyScan.simps index_def)
  have va: "Validate ?C ?e = Ret (10, None)"
    by (simp add: Validate_def vk stubCollab_def)
  have rep: "replicate 10 (0 :: byte) = [0, 0, 0, 0, 0, 0, 0, 0, 0, 0]"
    by code_simp
  have w: "writeByteSlice ?C ?e True 0 10 [0, 0, 0, 0, 0, 0, 0, 0, 0, 0]
     = Ret (10, None, Some ?dat, ?dat)"
    by (simp add: writeByteSlice_def needed_def index_def bytesOf_def copyVerbatim_def
          copyInto_def copyAt_def subslice_def startToWrite_def)
  have io: "io_Write ?C [0xAA] ?dat = Ret (10, None, [0xAA, 2, 0x78, 0, 3, 0, 0, 0, 0x68, 0x69, 0])"
    by (simp add: stubCollab_def)
  note T = WriteElement_by_target [where C = ?C and e = ?e and st = 5 and w = "[0xAA]"]
  have r1: "WriteElement ?C ?e 5 (Writer [0xAA])
     = Ret (10, None, Some ?dat, Writer [0xAA, 2, 0x78, 0, 3, 0, 0, 0, 0x68, 0x69, 0])"
    using T [THEN conjunct2, THEN conjunct1] by (simp add: va rep w io)
  have r2: "WriteElement ?C ?e 5 OtherKind = Ret (0, Some InvalidWriter, Some ?dat, OtherKind)"
    using T [THEN conjunct2, THEN conjunct2, THEN conjunct2] by (simp add: va dataOf_def)
  from r1 r2 show ?thesis
    by (intro conjI)
qed

text \<open>
  The claim as stated, for every element, fails on the nil element: with a target of an
  unsupported kind the error is \<^verbatim>\<open>NilElement\<close>, not \<^verbatim>\<open>InvalidWriter\<close>.
\<close>

theorem WriteElement_nil_unsupported_target:
  "WriteElement (stubCollab (0, None) None) None 0 OtherKind
     = Ret (0, Some NilElement, None, OtherKind)"
  by (simp add: WriteElement_def writeElement_def Validate_def dataOf_def)

end
